theory Spec2Isabelle
  imports Main "HOL-Library.AList" "HOL-Library.Sublist"
begin

section \<open>The storage adapters of the OAuth 2.1 provider\<close>

text \<open>
  The provider persists everything through the \<^verbatim>\<open>Storage\<close> interface
  (\<^verbatim>\<open>get\<close>, \<^verbatim>\<open>put\<close>, \<^verbatim>\<open>delete\<close>, \<^verbatim>\<open>list\<close>). The repository has three
  implementations: \<^verbatim>\<open>MemoryStorage\<close> (storage/memory.ts), \<^verbatim>\<open>TestStorage\<close>
  (__tests__/test-helpers/TestStorage.ts) and \<^verbatim>\<open>KVStorage\<close> (storage/cloudflare-kv.ts).

  Conventions of the embedding.
  \<^item> A JavaScript \<^verbatim>\<open>Map\<close> is an association list in insertion order:
    \<^verbatim>\<open>m.get(k)\<close> is \<open>map_of m k\<close>, \<^verbatim>\<open>m.set(k, v)\<close> is \<open>AList.update k v m\<close>
    (an existing key keeps its place, a new one goes last), \<^verbatim>\<open>m.delete(k)\<close> is
    \<open>AList.delete k m\<close>.
  \<^item> \<^verbatim>\<open>Date.now()\<close> is an argument \<open>now\<close>, in milliseconds, of type \<open>int\<close>.
  \<^item> The methods are \<^verbatim>\<open>async\<close> but never yield between their statements, so each
    is a function from the state before to a result and the state after.
  \<^item> An optional argument read only through optional chaining is its field:
    \<^verbatim>\<open>options?.type\<close>, \<^verbatim>\<open>options?.expirationTtl\<close> and \<^verbatim>\<open>options?.prefix\<close> are values
    of an \<open>option\<close> type, \<open>None\<close> when \<^verbatim>\<open>options\<close> or the field is undefined.
  \<^item> \<^verbatim>\<open>expirationTtl\<close> is a whole number of seconds and a time a whole number of
    milliseconds; JavaScript computes with such numbers exactly (below \<open>2 ^ 53\<close>), so
    they are of type \<open>int\<close>. JavaScript's truthiness of a number is \<open>n \<noteq> 0\<close>.
  \<^item> The stored value type is the parameter \<open>'v\<close>; the source instantiates it with
    \<^verbatim>\<open>string\<close>. \<^verbatim>\<open>JSON.parse\<close> is the parameter \<open>JSON_parse\<close>, \<open>None\<close> where it throws.
  \<^item> \<^verbatim>\<open>console.error\<close> writes a log line and changes neither result nor state; it is
    left out.
\<close>

subsection \<open>What \<^verbatim>\<open>get\<close> returns\<close>

text \<open>\<^verbatim>\<open>get\<close> returns \<^verbatim>\<open>null\<close> (\<open>None\<close>), the stored value, or the parsed JSON value.\<close>

datatype ('v, 'j) got = Raw 'v | Parsed 'j

text \<open>An entry of the \<^verbatim>\<open>keys\<close> array that \<^verbatim>\<open>list\<close> returns: \<^verbatim>\<open>{ name: string }\<close>.\<close>

record key_entry =
  name :: string

subsection \<open>MemoryStorage (storage/memory.ts)\<close>

record 'v MemoryStorage =
  store :: "(string \<times> 'v) list"
  ttls :: "(string \<times> int) list"

definition MemoryStorage_new :: "'v MemoryStorage" where
  "MemoryStorage_new = \<lparr>store = [], ttls = []\<rparr>"

definition MemoryStorage_get ::
  "('v \<Rightarrow> 'j option) \<Rightarrow> int \<Rightarrow> string \<Rightarrow> string option \<Rightarrow> 'v MemoryStorage
     \<Rightarrow> ('v, 'j) got option \<times> 'v MemoryStorage" where
  "MemoryStorage_get JSON_parse now key otype s =
     (let ttl = map_of (ttls s) key in
      if (case ttl of None \<Rightarrow> False | Some t \<Rightarrow> t \<noteq> 0 \<and> now > t) then
        (None, s\<lparr>store := AList.delete key (store s), ttls := AList.delete key (ttls s)\<rparr>)
      else
        (case map_of (store s) key of
           None \<Rightarrow> (None, s)
         | Some v \<Rightarrow>
             if otype = Some ''json'' then
               (case JSON_parse v of
                  Some j \<Rightarrow> (Some (Parsed j), s)
                | None \<Rightarrow> (None, s))
             else (Some (Raw v), s)))"

definition MemoryStorage_put ::
  "int \<Rightarrow> string \<Rightarrow> 'v \<Rightarrow> int option \<Rightarrow> 'v MemoryStorage \<Rightarrow> 'v MemoryStorage" where
  "MemoryStorage_put now key v expirationTtl s =
     (let s1 = s\<lparr>store := AList.update key v (store s)\<rparr> in
      case expirationTtl of
        Some n \<Rightarrow>
          if n \<noteq> 0 then s1\<lparr>ttls := AList.update key (now + n * 1000) (ttls s1)\<rparr>
          else s1\<lparr>ttls := AList.delete key (ttls s1)\<rparr>
      | None \<Rightarrow> s1\<lparr>ttls := AList.delete key (ttls s1)\<rparr>)"

definition MemoryStorage_delete :: "string \<Rightarrow> 'v MemoryStorage \<Rightarrow> 'v MemoryStorage" where
  "MemoryStorage_delete key s =
     s\<lparr>store := AList.delete key (store s), ttls := AList.delete key (ttls s)\<rparr>"

text \<open>
  The loop of \<^verbatim>\<open>list\<close> runs over \<^verbatim>\<open>this.store.entries()\<close> and deletes the expired
  entries while it runs. A \<^verbatim>\<open>Map\<close> iterator is live: an entry deleted from the map is
  not visited later, so the deleted key is also removed from the entries still to visit
  (in a \<^verbatim>\<open>Map\<close>, whose keys are distinct, that removes nothing).
\<close>

function MemoryStorage_list_loop ::
  "int \<Rightarrow> string option \<Rightarrow> (string \<times> 'v) list \<Rightarrow> 'v MemoryStorage \<Rightarrow> key_entry list
     \<Rightarrow> key_entry list \<times> 'v MemoryStorage" where
  "MemoryStorage_list_loop now pfx [] s keys = (keys, s)"
| "MemoryStorage_list_loop now pfx ((key, v) # rest) s keys =
     (let ttl = map_of (ttls s) key in
      if (case ttl of None \<Rightarrow> False | Some t \<Rightarrow> t \<noteq> 0 \<and> now > t) then
        MemoryStorage_list_loop now pfx (AList.delete key rest)
          (s\<lparr>store := AList.delete key (store s), ttls := AList.delete key (ttls s)\<rparr>) keys
      else if (case pfx of None \<Rightarrow> True | Some p \<Rightarrow> p = [] \<or> prefix p key) then
        MemoryStorage_list_loop now pfx rest s (keys @ [\<lparr>name = key\<rparr>])
      else MemoryStorage_list_loop now pfx rest s keys)"
  by pat_completeness auto
termination
  by (relation "measure (\<lambda>(now, pfx, entries, s, keys). length entries)")
     (auto simp: le_imp_less_Suc AList.length_delete_le)

definition MemoryStorage_list ::
  "int \<Rightarrow> string option \<Rightarrow> 'v MemoryStorage \<Rightarrow> key_entry list \<times> 'v MemoryStorage" where
  "MemoryStorage_list now pfx s = MemoryStorage_list_loop now pfx (store s) s []"

definition MemoryStorage_clear :: "'v MemoryStorage \<Rightarrow> 'v MemoryStorage" where
  "MemoryStorage_clear s = s\<lparr>store := [], ttls := []\<rparr>"

definition MemoryStorage_size :: "'v MemoryStorage \<Rightarrow> nat" where
  "MemoryStorage_size s = length (store s)"

definition MemoryStorage_getAllKeys :: "'v MemoryStorage \<Rightarrow> string list" where
  "MemoryStorage_getAllKeys s = map fst (store s)"

subsection \<open>TestStorage (__tests__/test-helpers/TestStorage.ts)\<close>

text \<open>
  The class has the same two private fields as \<^verbatim>\<open>MemoryStorage\<close>, so its state is
  the same record. Its four methods are written out again from its own source.
\<close>

type_synonym 'v TestStorage = "'v MemoryStorage"

definition TestStorage_new :: "'v TestStorage" where
  "TestStorage_new = \<lparr>store = [], ttls = []\<rparr>"

definition TestStorage_get ::
  "('v \<Rightarrow> 'j option) \<Rightarrow> int \<Rightarrow> string \<Rightarrow> string option \<Rightarrow> 'v TestStorage
     \<Rightarrow> ('v, 'j) got option \<times> 'v TestStorage" where
  "TestStorage_get JSON_parse now key otype s =
     (let ttl = map_of (ttls s) key in
      if (case ttl of None \<Rightarrow> False | Some t \<Rightarrow> t \<noteq> 0 \<and> now > t) then
        (None, s\<lparr>store := AList.delete key (store s), ttls := AList.delete key (ttls s)\<rparr>)
      else
        (case map_of (store s) key of
           None \<Rightarrow> (None, s)
         | Some v \<Rightarrow>
             if otype = Some ''json'' then
               (case JSON_parse v of
                  Some j \<Rightarrow> (Some (Parsed j), s)
                | None \<Rightarrow> (None, s))
             else (Some (Raw v), s)))"

definition TestStorage_put ::
  "int \<Rightarrow> string \<Rightarrow> 'v \<Rightarrow> int option \<Rightarrow> 'v TestStorage \<Rightarrow> 'v TestStorage" where
  "TestStorage_put now key v expirationTtl s =
     (let s1 = s\<lparr>store := AList.update key v (store s)\<rparr> in
      case expirationTtl of
        Some n \<Rightarrow>
          if n \<noteq> 0 then s1\<lparr>ttls := AList.update key (now + n * 1000) (ttls s1)\<rparr>
          else s1\<lparr>ttls := AList.delete key (ttls s1)\<rparr>
      | None \<Rightarrow> s1\<lparr>ttls := AList.delete key (ttls s1)\<rparr>)"

definition TestStorage_delete :: "string \<Rightarrow> 'v TestStorage \<Rightarrow> 'v TestStorage" where
  "TestStorage_delete key s =
     s\<lparr>store := AList.delete key (store s), ttls := AList.delete key (ttls s)\<rparr>"

function TestStorage_list_loop ::
  "int \<Rightarrow> string option \<Rightarrow> (string \<times> 'v) list \<Rightarrow> 'v TestStorage \<Rightarrow> key_entry list
     \<Rightarrow> key_entry list \<times> 'v TestStorage" where
  "TestStorage_list_loop now pfx [] s keys = (keys, s)"
| "TestStorage_list_loop now pfx ((key, v) # rest) s keys =
     (let ttl = map_of (ttls s) key in
      if (case ttl of None \<Rightarrow> False | Some t \<Rightarrow> t \<noteq> 0 \<and> now > t) then
        TestStorage_list_loop now pfx (AList.delete key rest)
          (s\<lparr>store := AList.delete key (store s), ttls := AList.delete key (ttls s)\<rparr>) keys
      else if (case pfx of None \<Rightarrow> True | Some p \<Rightarrow> p = [] \<or> prefix p key) then
        TestStorage_list_loop now pfx rest s (keys @ [\<lparr>name = key\<rparr>])
      else TestStorage_list_loop now pfx rest s keys)"
  by pat_completeness auto
termination
  by (relation "measure (\<lambda>(now, pfx, entries, s, keys). length entries)")
     (auto simp: le_imp_less_Suc AList.length_delete_le)

definition TestStorage_list ::
  "int \<Rightarrow> string option \<Rightarrow> 'v TestStorage \<Rightarrow> key_entry list \<times> 'v TestStorage" where
  "TestStorage_list now pfx s = TestStorage_list_loop now pfx (store s) s []"

subsection \<open>KVStorage (storage/cloudflare-kv.ts)\<close>

text \<open>
  The adapter wraps a Cloudflare \<^verbatim>\<open>KVNamespace\<close>, which the runtime provides. It is a
  parameter here: four operations over a state \<open>'k\<close> of the namespace, each of which
  either throws a value of type \<open>'e\<close> (\<open>Inl\<close>) or returns (\<open>Inr\<close>). An entry of the
  \<^verbatim>\<open>keys\<close> that \<^verbatim>\<open>kv.list\<close> returns has a \<^verbatim>\<open>name\<close> and further fields, of which
  \<^verbatim>\<open>expiration\<close> stands here. A method of the adapter returns \<open>Inl\<close> when it throws.
\<close>

record KVNamespaceListKey = key_entry +
  expiration :: "int option"

record ('k, 'e, 'v, 'j) KVNamespace =
  kv_get :: "string \<Rightarrow> string \<Rightarrow> 'k \<Rightarrow> ('e + ('v, 'j) got option) \<times> 'k"
  kv_put :: "string \<Rightarrow> 'v \<Rightarrow> int option \<Rightarrow> 'k \<Rightarrow> ('e + unit) \<times> 'k"
  kv_delete :: "string \<Rightarrow> 'k \<Rightarrow> ('e + unit) \<times> 'k"
  kv_list :: "string option \<Rightarrow> 'k \<Rightarrow> ('e + KVNamespaceListKey list) \<times> 'k"

definition KVStorage_get ::
  "('k, 'e, 'v, 'j) KVNamespace \<Rightarrow> string \<Rightarrow> string option \<Rightarrow> 'k
     \<Rightarrow> ('e + ('v, 'j) got option) \<times> 'k" where
  "KVStorage_get kv key otype k =
     (case (if otype = Some ''json'' then kv_get kv key ''json'' k
            else kv_get kv key ''text'' k) of
        (Inr r, k') \<Rightarrow> (Inr r, k')
      | (Inl error, k') \<Rightarrow> (Inr None, k'))"

definition KVStorage_put ::
  "('k, 'e, 'v, 'j) KVNamespace \<Rightarrow> string \<Rightarrow> 'v \<Rightarrow> int option \<Rightarrow> 'k \<Rightarrow> ('e + unit) \<times> 'k" where
  "KVStorage_put kv key v expirationTtl k =
     (let kvOptions = (case expirationTtl of
                         Some n \<Rightarrow> if n \<noteq> 0 then Some n else None
                       | None \<Rightarrow> None) in
      case kv_put kv key v kvOptions k of
        (Inr u, k') \<Rightarrow> (Inr (), k')
      | (Inl error, k') \<Rightarrow> (Inl error, k'))"

definition KVStorage_delete ::
  "('k, 'e, 'v, 'j) KVNamespace \<Rightarrow> string \<Rightarrow> 'k \<Rightarrow> ('e + unit) \<times> 'k" where
  "KVStorage_delete kv key k =
     (case kv_delete kv key k of
        (Inr u, k') \<Rightarrow> (Inr (), k')
      | (Inl error, k') \<Rightarrow> (Inl error, k'))"

definition KVStorage_list ::
  "('k, 'e, 'v, 'j) KVNamespace \<Rightarrow> string option \<Rightarrow> 'k \<Rightarrow> ('e + key_entry list) \<times> 'k" where
  "KVStorage_list kv pfx k =
     (case kv_list kv pfx k of
        (Inr result_keys, k') \<Rightarrow> (Inr (map (\<lambda>key. \<lparr>name = name key\<rparr>) result_keys), k')
      | (Inl error, k') \<Rightarrow> (Inr [], k'))"

text \<open>A namespace all of whose operations throw the string \<^verbatim>\<open>boom\<close>, for use at a concrete input.\<close>

definition throwing_kv :: "(unit, string, string, string) KVNamespace" where
  "throwing_kv =
     \<lparr>kv_get = (\<lambda>key ty k. (Inl ''boom'', k)),
      kv_put = (\<lambda>key v opts k. (Inl ''boom'', k)),
      kv_delete = (\<lambda>key k. (Inl ''boom'', k)),
      kv_list = (\<lambda>pfx k. (Inl ''boom'', k))\<rparr>"

subsection \<open>Sequences of calls\<close>

text \<open>
  A client of a storage object calls its methods one after the other, each at some time
  of the clock. \<open>MemoryStorage_run\<close> gives the state after such a sequence;
  \<open>writes k c\<close> says that the call \<open>c\<close> is a \<^verbatim>\<open>put\<close> or a \<^verbatim>\<open>delete\<close> of the key \<open>k\<close>.
\<close>

datatype 'v call =
    Get string "string option"
  | Put string 'v "int option"
  | Delete string
  | ListKeys "string option"

fun writes :: "string \<Rightarrow> 'v call \<Rightarrow> bool" where
  "writes k (Put k' v ttl) = (k' = k)"
| "writes k (Delete k') = (k' = k)"
| "writes k (Get k' ty) = False"
| "writes k (ListKeys p) = False"

definition MemoryStorage_call ::
  "('v \<Rightarrow> 'j option) \<Rightarrow> int \<Rightarrow> 'v call \<Rightarrow> 'v MemoryStorage \<Rightarrow> 'v MemoryStorage" where
  "MemoryStorage_call JSON_parse now c s =
     (case c of
        Get k ty \<Rightarrow> snd (MemoryStorage_get JSON_parse now k ty s)
      | Put k v ttl \<Rightarrow> MemoryStorage_put now k v ttl s
      | Delete k \<Rightarrow> MemoryStorage_delete k s
      | ListKeys p \<Rightarrow> snd (MemoryStorage_list now p s))"

fun MemoryStorage_run ::
  "('v \<Rightarrow> 'j option) \<Rightarrow> (int \<times> 'v call) list \<Rightarrow> 'v MemoryStorage \<Rightarrow> 'v MemoryStorage" where
  "MemoryStorage_run JSON_parse [] s = s"
| "MemoryStorage_run JSON_parse ((now, c) # cs) s =
     MemoryStorage_run JSON_parse cs (MemoryStorage_call JSON_parse now c s)"

definition TestStorage_call ::
  "('v \<Rightarrow> 'j option) \<Rightarrow> int \<Rightarrow> 'v call \<Rightarrow> 'v TestStorage \<Rightarrow> 'v TestStorage" where
  "TestStorage_call JSON_parse now c s =
     (case c of
        Get k ty \<Rightarrow> snd (TestStorage_get JSON_parse now k ty s)
      | Put k v ttl \<Rightarrow> TestStorage_put now k v ttl s
      | Delete k \<Rightarrow> TestStorage_delete k s
      | ListKeys p \<Rightarrow> snd (TestStorage_list now p s))"

fun TestStorage_run ::
  "('v \<Rightarrow> 'j option) \<Rightarrow> (int \<times> 'v call) list \<Rightarrow> 'v TestStorage \<Rightarrow> 'v TestStorage" where
  "TestStorage_run JSON_parse [] s = s"
| "TestStorage_run JSON_parse ((now, c) # cs) s =
     TestStorage_run JSON_parse cs (TestStorage_call JSON_parse now c s)"

text \<open>A sequence of calls that leaves the key \<^verbatim>\<open>expiring\<close> alone, for use at a concrete input.\<close>

definition witness_trace :: "(int \<times> string call) list" where
  "witness_trace =
     [(1200, Get ''expiring'' None), (1300, Put ''persistent'' ''value1'' None),
      (1400, ListKeys (Some ''p'')), (1500, Delete ''other'')]"

subsection \<open>Notions used in the statements\<close>

text \<open>
  \<open>expired_at now tt k\<close> is the test \<^verbatim>\<open>ttl && now > ttl\<close> that \<^verbatim>\<open>get\<close> and \<^verbatim>\<open>list\<close> make
  for the key \<open>k\<close>. \<open>frame now k s s'\<close>: from \<open>s\<close> to \<open>s'\<close> the key \<open>k\<close> kept its value and
  its expiry, or it was expired at \<open>now\<close> and has been purged.
\<close>

definition expired_at :: "int \<Rightarrow> (string \<times> int) list \<Rightarrow> string \<Rightarrow> bool" where
  "expired_at now tt k = (case map_of tt k of None \<Rightarrow> False | Some t \<Rightarrow> t \<noteq> 0 \<and> now > t)"

definition frame :: "int \<Rightarrow> string \<Rightarrow> 'v MemoryStorage \<Rightarrow> 'v MemoryStorage \<Rightarrow> bool" where
  "frame now k s s' =
     ((map_of (store s') k = map_of (store s) k \<and> map_of (ttls s') k = map_of (ttls s) k)
      \<or> (map_of (store s') k = None \<and> map_of (ttls s') k = None \<and> expired_at now (ttls s) k))"

section \<open>The authorization endpoint\<close>

text \<open>
  The handlers of \<^verbatim>\<open>/authorize\<close> are in oauth-provider.ts, which is not among the
  source files; the tests that call them are (__tests__/endpoints and
  __tests__/security). The definitions of this section are written from the
  specification and from what these tests store and expect. The handlers run on a
  \<^verbatim>\<open>TestStorage\<close>, as they do in the tests.
\<close>

text \<open>
  Modelled from the spec: the Client Record of the Client Registry (section 3), which
  the absent oauth-provider.ts persists under the key \<^verbatim>\<open>client:<id>\<close> with no expiry.
\<close>

record ClientRecord =
  client_id :: string
  client_secret :: "string option"
  redirect_uris :: "string list"
  client_name :: string
  token_endpoint_auth_method :: string

text \<open>
  Modelled from the spec: the CSRF Token Record (section 3),
  \<^verbatim>\<open>{clientId, redirectUri, expiresAt}\<close>; the tests store it under \<^verbatim>\<open>csrf:<token>\<close>.
\<close>

record CsrfTokenRecord =
  csrf_clientId :: string
  csrf_redirectUri :: string
  csrf_expiresAt :: int

text \<open>
  Modelled from the spec: the Authorization Code Record (section 3). The upstream
  context is an opaque string.
\<close>

record AuthorizationCodeRecord =
  code_clientId :: string
  code_redirectUri :: string
  code_scope :: "string list"
  code_userId :: string
  code_codeChallenge :: "string option"
  code_codeChallengeMethod :: "string option"
  code_upstreamContext :: "string option"
  code_expiresAt :: int

text \<open>
  Modelled from the spec: the Consent Record (section 3), the approved scopes and a
  timestamp for a pair of user and client.
\<close>

record ConsentRecord =
  consent_scope :: "string list"
  consent_timestamp :: int

text \<open>
  Modelled from the spec: what the absent handlers keep in storage. The handlers store
  \<^verbatim>\<open>JSON.stringify(record)\<close> and read with \<^verbatim>\<open>{ type: 'json' }\<close>; here the stored value is
  the record itself and \<^verbatim>\<open>JSON.parse\<close> is \<open>Some\<close>, that is, serialising a record and
  parsing it again is taken to give the record back.
\<close>

datatype entry =
    ClientEntry ClientRecord
  | CsrfEntry CsrfTokenRecord
  | CodeEntry AuthorizationCodeRecord
  | ConsentEntry ConsentRecord

text \<open>
  Modelled from the spec: the provider's configuration (\<^verbatim>\<open>OAuth21Config\<close> in the
  README; its declaration in types.ts is absent): issuer, supported scopes and strict mode,
  and the two lifetimes in seconds that section 3 calls short (CSRF token) and at most
  ten minutes (authorization code).
\<close>

record OAuth21Config =
  issuer :: string
  scopesSupported :: "string list"
  strictMode :: bool
  csrfTokenTtl :: int
  authorizationCodeTtl :: int

text \<open>
  Modelled from the spec: the data that \<^verbatim>\<open>GET /authorize\<close> returns for rendering the
  consent page (section 4.2); rendering is the caller's.
\<close>

record ConsentPageData =
  page_client :: ClientRecord
  page_redirect_uri :: string
  page_scope :: "string list"
  page_state :: "string option"
  page_code_challenge :: "string option"
  page_code_challenge_method :: "string option"
  page_csrf_token :: string

text \<open>
  Modelled from the spec: the responses of the absent \<^verbatim>\<open>/authorize\<close> handlers. \<open>Json\<close> is a
  JSON body with its HTTP status, \<open>Redirect\<close> an HTTP 302 to a URL with the query
  parameters added to it, \<open>ConsentPage\<close> an HTTP 200 with the consent page.
\<close>

datatype response =
    Json nat "(string \<times> string) list"
  | Redirect string "(string \<times> string) list"
  | ConsentPage ConsentPageData

text \<open>
  Modelled from the spec: reading a parameter of the query string or of the form body
  (the first value of that name, as \<^verbatim>\<open>URLSearchParams.get\<close> gives it).
\<close>

definition param :: "(string \<times> string) list \<Rightarrow> string \<Rightarrow> string option" where
  "param ps k = map_of ps k"

text \<open>
  Modelled from the spec: the JSON error body and the error parameters of a redirect,
  \<^verbatim>\<open>error\<close> and \<^verbatim>\<open>error_description\<close> (section 7).
\<close>

definition error_body :: "string \<Rightarrow> string \<Rightarrow> (string \<times> string) list" where
  "error_body code description = [(''error'', code), (''error_description'', description)]"

text \<open>
  Modelled from the spec: the \<^verbatim>\<open>state\<close> parameter of a redirect, present if the
  request provided it (section 4.2).
\<close>

definition state_param :: "string option \<Rightarrow> (string \<times> string) list" where
  "state_param st = (case st of None \<Rightarrow> [] | Some v \<Rightarrow> [(''state'', v)])"

text \<open>
  Modelled from the spec: an error delivered by redirect once the redirect target is
  trusted, with \<^verbatim>\<open>error\<close>, \<^verbatim>\<open>error_description\<close>, \<^verbatim>\<open>state\<close> and \<^verbatim>\<open>iss\<close> (section 7).
\<close>

definition error_redirect ::
  "OAuth21Config \<Rightarrow> string \<Rightarrow> string \<Rightarrow> string \<Rightarrow> string option \<Rightarrow> response" where
  "error_redirect cfg uri code description st =
     Redirect uri (error_body code description @ state_param st @ [(''iss'', issuer cfg)])"

text \<open>
  Modelled from the spec: the requested scopes, the words of the space-separated
  \<^verbatim>\<open>scope\<close> parameter.
\<close>

definition split_scope :: "string \<Rightarrow> string list" where
  "split_scope sc =
     filter (\<lambda>w. w \<noteq> [])
       (foldr (\<lambda>c acc. if c = CHR '' '' then [] # acc
                        else (case acc of [] \<Rightarrow> [[c]] | w # ws \<Rightarrow> (c # w) # ws)) sc [[]])"

text \<open>
  Modelled from the spec: \<^verbatim>\<open>lookup(client_id) -> ClientRecord | not-found\<close> of the Client
  Registry (section 4.1), reading the key \<^verbatim>\<open>client:<id>\<close>.
\<close>

definition lookup ::
  "int \<Rightarrow> string \<Rightarrow> entry TestStorage \<Rightarrow> ClientRecord option \<times> entry TestStorage" where
  "lookup now cid s =
     (case TestStorage_get Some now (''client:'' @ cid) (Some ''json'') s of
        (Some (Parsed (ClientEntry c)), s1) \<Rightarrow> (Some c, s1)
      | (_, s1) \<Rightarrow> (None, s1))"

text \<open>
  Modelled from the spec: \<^verbatim>\<open>validateRedirectUri(client, uri)\<close> of the Client Registry
  (section 4.1): exact string match, no prefix or wildcard matching.
\<close>

definition validateRedirectUri :: "ClientRecord \<Rightarrow> string \<Rightarrow> bool" where
  "validateRedirectUri client uri = (uri \<in> set (redirect_uris client))"

text \<open>
  Modelled from the spec: the description of the error for a redirect URI that is not
  registered; the test expects it to contain \<^verbatim>\<open>redirect_uri\<close>. The wording is the model's.
\<close>

definition redirect_uri_description :: string where
  "redirect_uri_description = ''Invalid redirect_uri''"

text \<open>
  Modelled from the spec: the description of the error for a missing code challenge,
  which must mention PKCE (section 4.2). The wording is the model's.
\<close>

definition pkce_description :: string where
  "pkce_description = ''PKCE code_challenge is required for public clients''"

text \<open>
  Modelled from the spec: the description of the error for a failed CSRF validation,
  which must reference CSRF (section 8). The wording is the model's.
\<close>

definition csrf_description :: string where
  "csrf_description = ''Invalid or expired CSRF token''"

text \<open>
  Modelled from the spec: \<^verbatim>\<open>GET /authorize\<close> of the Authorization State Machine
  (section 4.2), whose handler in oauth-provider.ts is absent. The checks run in the order
  of the spec: \<^verbatim>\<open>response_type\<close>, the client, the redirect URI, the scope, PKCE in strict
  mode. A failure before the redirect URI is verified is a JSON body with HTTP 400, a
  failure after it a redirect with \<^verbatim>\<open>error\<close> and \<^verbatim>\<open>iss\<close>; the error codes are those of
  the taxonomy of section 7 (\<^verbatim>\<open>invalid_client\<close> for an unknown client, as the test
  expects). A request that passes stores a CSRF token bound to the client and the redirect
  URI, with its lifetime, and returns the consent page. The generated token is the
  argument \<open>csrfToken\<close>. Auto-approval from an earlier consent, which the spec leaves to the
  implementer, is not modelled.
\<close>

definition GET_authorize ::
  "OAuth21Config \<Rightarrow> string \<Rightarrow> int \<Rightarrow> (string \<times> string) list \<Rightarrow> entry TestStorage
     \<Rightarrow> response \<times> entry TestStorage" where
  "GET_authorize cfg csrfToken now q s =
     (if param q ''response_type'' \<noteq> Some ''code'' then
        (Json 400 (error_body ''invalid_request'' ''response_type must be code''), s)
      else
        case param q ''client_id'' of
          None \<Rightarrow> (Json 400 (error_body ''invalid_request'' ''client_id is required''), s)
        | Some cid \<Rightarrow>
            (case lookup now cid s of
               (None, s1) \<Rightarrow> (Json 400 (error_body ''invalid_client'' ''Unknown client''), s1)
             | (Some client, s1) \<Rightarrow>
                 (case param q ''redirect_uri'' of
                    None \<Rightarrow>
                      (Json 400 (error_body ''invalid_request'' ''redirect_uri is required''), s1)
                  | Some uri \<Rightarrow>
                      if \<not> validateRedirectUri client uri then
                        (Json 400 (error_body ''invalid_request'' redirect_uri_description), s1)
                      else
                        let st = param q ''state'';
                            requested = (case param q ''scope'' of
                                           None \<Rightarrow> [] | Some sc \<Rightarrow> split_scope sc)
                        in
                          if \<not> list_all (\<lambda>x. x \<in> set (scopesSupported cfg)) requested then
                            (error_redirect cfg uri ''invalid_request''
                               ''Requested scope is not supported'' st, s1)
                          else if strictMode cfg
                                  \<and> token_endpoint_auth_method client = ''none''
                                  \<and> param q ''code_challenge'' = None then
                            (error_redirect cfg uri ''invalid_request'' pkce_description st, s1)
                          else
                            (ConsentPage
                               \<lparr>page_client = client, page_redirect_uri = uri,
                                page_scope = requested, page_state = st,
                                page_code_challenge = param q ''code_challenge'',
                                page_code_challenge_method = param q ''code_challenge_method'',
                                page_csrf_token = csrfToken\<rparr>,
                             TestStorage_put now (''csrf:'' @ csrfToken)
                               (CsrfEntry \<lparr>csrf_clientId = cid, csrf_redirectUri = uri,
                                   csrf_expiresAt = now + csrfTokenTtl cfg * 1000\<rparr>)
                               (Some (csrfTokenTtl cfg)) s1))))"

text \<open>
  Modelled from the spec: the CSRF validation of \<^verbatim>\<open>POST /authorize\<close> (section 4.2):
  the token of the form body must be the key of a stored record for the client and
  redirect URI of the form; the look-up is followed by the deletion of the record, which
  happens on a successful validation only (section 3).
\<close>

definition validateCsrfToken ::
  "int \<Rightarrow> (string \<times> string) list \<Rightarrow> entry TestStorage \<Rightarrow> bool \<times> entry TestStorage" where
  "validateCsrfToken now form s =
     (case param form ''csrf_token'' of
        None \<Rightarrow> (False, s)
      | Some tok \<Rightarrow>
          (case TestStorage_get Some now (''csrf:'' @ tok) (Some ''json'') s of
             (Some (Parsed (CsrfEntry r)), s1) \<Rightarrow>
               if param form ''client_id'' = Some (csrf_clientId r)
                  \<and> param form ''redirect_uri'' = Some (csrf_redirectUri r)
               then (True, TestStorage_delete (''csrf:'' @ tok) s1)
               else (False, s1)
           | (_, s1) \<Rightarrow> (False, s1)))"

text \<open>
  Modelled from the spec: \<^verbatim>\<open>POST /authorize\<close> of the Authorization State Machine
  (section 4.2), whose handler in oauth-provider.ts is absent. A failed CSRF validation is
  a JSON body with HTTP 400. On \<^verbatim>\<open>action=approve\<close> an authorization code record and a
  consent record are stored and the response redirects with \<^verbatim>\<open>code\<close>, \<^verbatim>\<open>state\<close> and
  \<^verbatim>\<open>iss\<close>; on \<^verbatim>\<open>action=deny\<close> it redirects with \<^verbatim>\<open>error=access_denied\<close>, \<^verbatim>\<open>state\<close> and
  \<^verbatim>\<open>iss\<close>; any other action is an error delivered by redirect. The generated code, the
  user and the upstream context are the arguments \<open>code\<close>, \<open>userId\<close> and
  \<open>upstreamContext\<close>; the keys \<^verbatim>\<open>code:<code>\<close> and \<^verbatim>\<open>consent:<user>:<client>\<close> are the
  model's. The form field is \<^verbatim>\<open>action\<close>, as in the spec and in the tests of
  __tests__/security.
\<close>

definition POST_authorize ::
  "OAuth21Config \<Rightarrow> string \<Rightarrow> string \<Rightarrow> string option \<Rightarrow> int \<Rightarrow> (string \<times> string) list
     \<Rightarrow> entry TestStorage \<Rightarrow> response \<times> entry TestStorage" where
  "POST_authorize cfg code userId upstreamContext now form s =
     (case validateCsrfToken now form s of
        (False, s1) \<Rightarrow> (Json 400 (error_body ''invalid_request'' csrf_description), s1)
      | (True, s1) \<Rightarrow>
          (case (param form ''client_id'', param form ''redirect_uri'') of
             (Some cid, Some uri) \<Rightarrow>
               let st = param form ''state'';
                   requested = (case param form ''scope'' of
                                  None \<Rightarrow> [] | Some sc \<Rightarrow> split_scope sc)
               in
                 if param form ''action'' = Some ''approve'' then
                   let s2 = TestStorage_put now (''code:'' @ code)
                              (CodeEntry
                                 \<lparr>code_clientId = cid, code_redirectUri = uri,
                                  code_scope = requested, code_userId = userId,
                                  code_codeChallenge = param form ''code_challenge'',
                                  code_codeChallengeMethod = param form ''code_challenge_method'',
                                  code_upstreamContext = upstreamContext,
                                  code_expiresAt = now + authorizationCodeTtl cfg * 1000\<rparr>)
                              (Some (authorizationCodeTtl cfg)) s1;
                       s3 = TestStorage_put now (''consent:'' @ userId @ '':'' @ cid)
                              (ConsentEntry
                                 \<lparr>consent_scope = requested, consent_timestamp = now\<rparr>)
                              None s2
                   in (Redirect uri ([(''code'', code)] @ state_param st @ [(''iss'', issuer cfg)]),
                       s3)
                 else if param form ''action'' = Some ''deny'' then
                   (Redirect uri
                      ([(''error'', ''access_denied'')] @ state_param st @ [(''iss'', issuer cfg)]),
                    s1)
                 else
                   (error_redirect cfg uri ''invalid_request'' ''action must be approve or deny'' st,
                    s1)
           | _ \<Rightarrow> (Json 400 (error_body ''invalid_request'' csrf_description), s1)))"

text \<open>
  A registered client, a configuration and a storage with that client and a CSRF token
  for it, as the tests set them up; a consent form as the tests submit it.
\<close>

definition test_client :: ClientRecord where
  "test_client =
     \<lparr>client_id = ''abc'', client_secret = Some ''s3cret'',
      redirect_uris = [''https://client.example.com/callback''],
      client_name = ''Test Client'', token_endpoint_auth_method = ''client_secret_basic''\<rparr>"

definition test_config :: OAuth21Config where
  "test_config =
     \<lparr>issuer = ''http://localhost:8787'', scopesSupported = [''read'', ''write''],
      strictMode = True, csrfTokenTtl = 600, authorizationCodeTtl = 600\<rparr>"

definition test_storage :: "entry TestStorage" where
  "test_storage =
     TestStorage_put 2000 ''csrf:test-csrf-success''
       (CsrfEntry \<lparr>csrf_clientId = ''abc'',
                   csrf_redirectUri = ''https://client.example.com/callback'',
                   csrf_expiresAt = 602000\<rparr>) None
       (TestStorage_put 1000 ''client:abc'' (ClientEntry test_client) None TestStorage_new)"

definition test_form :: "string \<Rightarrow> (string \<times> string) list" where
  "test_form csrf_token =
     [(''action'', ''approve''), (''csrf_token'', csrf_token), (''client_id'', ''abc''),
      (''redirect_uri'', ''https://client.example.com/callback''), (''scope'', ''read''),
      (''state'', ''test-state'')]"

section \<open>Properties of the in-memory adapters\<close>

subsection \<open>What a call leaves of another key\<close>

lemma frame_refl: "frame now k s s"
  by (simp add: frame_def)

lemma frame_purge:
  "expired_at now (ttls s) key \<Longrightarrow>
   frame now k s (s\<lparr>store := AList.delete key (store s), ttls := AList.delete key (ttls s)\<rparr>)"
  by (cases "k = key") (auto simp: frame_def AList.delete_conv')

lemma frame_trans: "frame now k s s1 \<Longrightarrow> frame now k s1 s2 \<Longrightarrow> frame now k s s2"
  by (auto simp: frame_def expired_at_def split: option.splits)

lemma list_loop_frame:
  "frame now k s (snd (MemoryStorage_list_loop now pfx entries s keys))"
proof (induction now pfx entries s keys rule: MemoryStorage_list_loop.induct)
  case (1 now pfx s keys)
  show ?case by (simp add: frame_refl)
next
  case (2 now pfx key v rest s keys)
  show ?case
  proof (cases "expired_at now (ttls s) key")
    case True
    let ?s1 = "s\<lparr>store := AList.delete key (store s), ttls := AList.delete key (ttls s)\<rparr>"
    from True have c: "(case map_of (ttls s) key of None \<Rightarrow> False | Some t \<Rightarrow> t \<noteq> 0 \<and> now > t)"
      by (simp add: expired_at_def)
    have "frame now k ?s1 (snd (MemoryStorage_list_loop now pfx (AList.delete key rest) ?s1 keys))"
      using "2.IH"(1) c by simp
    with frame_purge[OF True] have "frame now k s (snd (MemoryStorage_list_loop now pfx (AList.delete key rest) ?s1 keys))"
      by (rule frame_trans)
    with c show ?thesis by simp
  next
    case False
    then have c: "\<not> (case map_of (ttls s) key of None \<Rightarrow> False | Some t \<Rightarrow> t \<noteq> 0 \<and> now > t)"
      by (simp add: expired_at_def)
    show ?thesis
    proof (cases "(case pfx of None \<Rightarrow> True | Some p \<Rightarrow> p = [] \<or> prefix p key)")
      case True
      with c "2.IH"(2) show ?thesis by simp
    next
      case False
      with c "2.IH"(3) show ?thesis by simp
    qed
  qed
qed

lemma get_frame: "frame now k s (snd (MemoryStorage_get P now key ty s))"
proof (cases "expired_at now (ttls s) key")
  case True
  then show ?thesis
    using frame_purge[OF True, of k]
    by (simp add: MemoryStorage_get_def expired_at_def)
next
  case False
  then show ?thesis
    by (auto simp: MemoryStorage_get_def expired_at_def frame_refl split: option.splits)
qed

lemma call_frame: "\<not> writes k c \<Longrightarrow> frame now k s (MemoryStorage_call P now c s)"
proof (cases c)
  case (Get k' ty)
  then show ?thesis by (simp add: MemoryStorage_call_def get_frame)
next
  case (Put k' v ttl)
  assume "\<not> writes k c"
  with Put have "k' \<noteq> k" by simp
  then show ?thesis using Put
    by (auto simp: MemoryStorage_call_def MemoryStorage_put_def frame_def Let_def
        AList.update_conv' AList.delete_conv' split: option.splits)
next
  case (Delete k')
  assume "\<not> writes k c"
  with Delete have "k' \<noteq> k" by simp
  then show ?thesis using Delete
    by (auto simp: MemoryStorage_call_def MemoryStorage_delete_def frame_def AList.delete_conv')
next
  case (ListKeys p)
  then show ?thesis by (simp add: MemoryStorage_call_def MemoryStorage_list_def list_loop_frame)
qed

subsection \<open>Membership in the result of \<^verbatim>\<open>list\<close>\<close>

lemma list_loop_keeps:
  "k \<in> name ` set keys \<Longrightarrow> k \<in> name ` set (fst (MemoryStorage_list_loop now pfx entries s keys))"
  by (induction now pfx entries s keys rule: MemoryStorage_list_loop.induct) (auto simp: Let_def)

lemma list_loop_excludes:
  "k \<notin> fst ` set entries \<or> expired_at now (ttls s) k \<Longrightarrow> k \<notin> name ` set keys \<Longrightarrow>
   k \<notin> name ` set (fst (MemoryStorage_list_loop now pfx entries s keys))"
proof (induction now pfx entries s keys rule: MemoryStorage_list_loop.induct)
  case (1 now pfx s keys)
  then show ?case by simp
next
  case (2 now pfx key v rest s keys)
  let ?s1 = "s\<lparr>store := AList.delete key (store s), ttls := AList.delete key (ttls s)\<rparr>"
  show ?case
  proof (cases "expired_at now (ttls s) key")
    case True
    then have c: "(case map_of (ttls s) key of None \<Rightarrow> False | Some t \<Rightarrow> t \<noteq> 0 \<and> now > t)"
      by (simp add: expired_at_def)
    have "k \<notin> fst ` set (AList.delete key rest) \<or> expired_at now (ttls ?s1) k"
    proof (cases "k = key")
      case True
      then show ?thesis by (simp add: AList.delete_notin_dom)
    next
      case False
      with "2.prems"(1) show ?thesis
        using AList.dom_delete_subset[of key rest]
        by (auto simp: expired_at_def)
    qed
    with "2.IH"(1) c "2.prems"(2) show ?thesis by simp
  next
    case False
    then have c: "\<not> (case map_of (ttls s) key of None \<Rightarrow> False | Some t \<Rightarrow> t \<noteq> 0 \<and> now > t)"
      by (simp add: expired_at_def)
    from False "2.prems"(1) have ne: "k \<noteq> key" by auto
    from "2.prems"(1) ne have r: "k \<notin> fst ` set rest \<or> expired_at now (ttls s) k" by auto
    show ?thesis
    proof (cases "(case pfx of None \<Rightarrow> True | Some p \<Rightarrow> p = [] \<or> prefix p key)")
      case True
      with c "2.IH"(2) r ne "2.prems"(2) show ?thesis by simp
    next
      case False
      with c "2.IH"(3) r "2.prems"(2) show ?thesis by simp
    qed
  qed
qed

lemma list_loop_includes:
  "k \<in> fst ` set entries \<Longrightarrow> \<not> expired_at now (ttls s) k \<Longrightarrow>
   (case pfx of None \<Rightarrow> True | Some p \<Rightarrow> p = [] \<or> prefix p k) \<Longrightarrow>
   k \<in> name ` set (fst (MemoryStorage_list_loop now pfx entries s keys))"
proof (induction now pfx entries s keys rule: MemoryStorage_list_loop.induct)
  case (1 now pfx s keys)
  then show ?case by simp
next
  case (2 now pfx key v rest s keys)
  let ?s1 = "s\<lparr>store := AList.delete key (store s), ttls := AList.delete key (ttls s)\<rparr>"
  show ?case
  proof (cases "expired_at now (ttls s) key")
    case True
    then have c: "(case map_of (ttls s) key of None \<Rightarrow> False | Some t \<Rightarrow> t \<noteq> 0 \<and> now > t)"
      by (simp add: expired_at_def)
    from True "2.prems"(2) have ne: "k \<noteq> key" by auto
    with "2.prems"(1) have "k \<in> fst ` set (AList.delete key rest)"
      by (auto simp: AList.delete_eq image_iff)
    moreover from ne "2.prems"(2) have "\<not> expired_at now (ttls ?s1) k"
      by (simp add: expired_at_def)
    ultimately show ?thesis using "2.IH"(1) c "2.prems"(3) by simp
  next
    case False
    then have c: "\<not> (case map_of (ttls s) key of None \<Rightarrow> False | Some t \<Rightarrow> t \<noteq> 0 \<and> now > t)"
      by (simp add: expired_at_def)
    show ?thesis
    proof (cases "k = key")
      case True
      with "2.prems"(3) have "(case pfx of None \<Rightarrow> True | Some p \<Rightarrow> p = [] \<or> prefix p key)"
        by (cases pfx) simp_all
      with c True show ?thesis
        by (simp add: list_loop_keeps)
    next
      case False
      with "2.prems"(1) have r: "k \<in> fst ` set rest" by auto
      show ?thesis
      proof (cases "(case pfx of None \<Rightarrow> True | Some p \<Rightarrow> p = [] \<or> prefix p key)")
        case True
        with c "2.IH"(2) r "2.prems" show ?thesis by simp
      next
        case False
        with c "2.IH"(3) r "2.prems" show ?thesis by simp
      qed
    qed
  qed
qed

lemma list_excludes:
  "map_of (store s) k = None \<or> expired_at now (ttls s) k \<Longrightarrow>
   k \<notin> name ` set (fst (MemoryStorage_list now pfx s))"
  unfolding MemoryStorage_list_def
  by (rule list_loop_excludes) (auto simp: map_of_eq_None_iff)

lemma list_includes:
  "map_of (store s) k = Some v \<Longrightarrow> \<not> expired_at now (ttls s) k \<Longrightarrow>
   (case pfx of None \<Rightarrow> True | Some p \<Rightarrow> p = [] \<or> prefix p k) \<Longrightarrow>
   k \<in> name ` set (fst (MemoryStorage_list now pfx s))"
  unfolding MemoryStorage_list_def
  by (rule list_loop_includes) (auto dest: map_of_SomeD intro: rev_image_eqI)

subsection \<open>Invariants along a sequence of calls\<close>

lemma run_persistent:
  "\<forall>(t, c) \<in> set trace. \<not> writes k c \<Longrightarrow>
   map_of (store s) k = Some v \<Longrightarrow> map_of (ttls s) k = None \<Longrightarrow>
   map_of (store (MemoryStorage_run P trace s)) k = Some v \<and>
   map_of (ttls (MemoryStorage_run P trace s)) k = None"
proof (induction trace arbitrary: s)
  case Nil
  then show ?case by simp
next
  case (Cons a trace)
  obtain t c where a: "a = (t, c)" by (cases a)
  with Cons.prems(1) have w: "\<not> writes k c" by simp
  have "frame t k s (MemoryStorage_call P t c s)" using w by (rule call_frame)
  with Cons.prems(2,3) have
    "map_of (store (MemoryStorage_call P t c s)) k = Some v"
    "map_of (ttls (MemoryStorage_call P t c s)) k = None"
    by (auto simp: frame_def expired_at_def)
  with Cons.IH[of "MemoryStorage_call P t c s"] Cons.prems(1) a show ?case by simp
qed

lemma run_before_expiry:
  "\<forall>(t, c) \<in> set trace. \<not> writes k c \<and> t \<le> e \<Longrightarrow>
   map_of (store s) k = Some v \<Longrightarrow> map_of (ttls s) k = Some e \<Longrightarrow>
   map_of (store (MemoryStorage_run P trace s)) k = Some v \<and>
   map_of (ttls (MemoryStorage_run P trace s)) k = Some e"
proof (induction trace arbitrary: s)
  case Nil
  then show ?case by simp
next
  case (Cons a trace)
  obtain t c where a: "a = (t, c)" by (cases a)
  with Cons.prems(1) have w: "\<not> writes k c" and le: "t \<le> e" by simp_all
  have "frame t k s (MemoryStorage_call P t c s)" using w by (rule call_frame)
  with Cons.prems(2,3) le have
    "map_of (store (MemoryStorage_call P t c s)) k = Some v"
    "map_of (ttls (MemoryStorage_call P t c s)) k = Some e"
    by (auto simp: frame_def expired_at_def)
  with Cons.IH[of "MemoryStorage_call P t c s"] Cons.prems(1) a show ?case by simp
qed

lemma run_expiring:
  "\<forall>(t, c) \<in> set trace. \<not> writes k c \<Longrightarrow>
   map_of (store s) k = None \<or> map_of (ttls s) k = Some e \<Longrightarrow>
   map_of (store (MemoryStorage_run P trace s)) k = None \<or>
   map_of (ttls (MemoryStorage_run P trace s)) k = Some e"
proof (induction trace arbitrary: s)
  case Nil
  then show ?case by simp
next
  case (Cons a trace)
  obtain t c where a: "a = (t, c)" by (cases a)
  with Cons.prems(1) have w: "\<not> writes k c" by simp
  have "frame t k s (MemoryStorage_call P t c s)" using w by (rule call_frame)
  with Cons.prems(2) have
    "map_of (store (MemoryStorage_call P t c s)) k = None \<or>
     map_of (ttls (MemoryStorage_call P t c s)) k = Some e"
    by (auto simp: frame_def expired_at_def)
  with Cons.IH[of "MemoryStorage_call P t c s"] Cons.prems(1) a show ?case by simp
qed

lemma run_absent:
  "\<forall>(t, c) \<in> set trace. \<not> writes k c \<Longrightarrow> map_of (store s) k = None \<Longrightarrow>
   map_of (store (MemoryStorage_run P trace s)) k = None"
proof (induction trace arbitrary: s)
  case Nil
  then show ?case by simp
next
  case (Cons a trace)
  obtain t c where a: "a = (t, c)" by (cases a)
  with Cons.prems(1) have w: "\<not> writes k c" by simp
  have "frame t k s (MemoryStorage_call P t c s)" using w by (rule call_frame)
  with Cons.prems(2) have "map_of (store (MemoryStorage_call P t c s)) k = None"
    by (auto simp: frame_def)
  with Cons.IH[of "MemoryStorage_call P t c s"] Cons.prems(1) a show ?case by simp
qed

subsection \<open>Single calls\<close>

lemma put_ttl_lookup:
  "n \<noteq> 0 \<Longrightarrow>
   map_of (store (MemoryStorage_put t0 key v (Some n) s)) key = Some v \<and>
   map_of (ttls (MemoryStorage_put t0 key v (Some n) s)) key = Some (t0 + n * 1000)"
  by (simp add: MemoryStorage_put_def Let_def AList.update_conv')

lemma put_no_ttl_lookup:
  "expirationTtl = None \<or> expirationTtl = Some 0 \<Longrightarrow>
   map_of (store (MemoryStorage_put t0 key v expirationTtl s)) key = Some v \<and>
   map_of (ttls (MemoryStorage_put t0 key v expirationTtl s)) key = None"
  by (auto simp: MemoryStorage_put_def Let_def AList.update_conv' AList.delete_conv')

lemma get_expired:
  "map_of (store s) k = None \<or> expired_at now (ttls s) k \<Longrightarrow>
   fst (MemoryStorage_get P now k ty s) = None"
  by (auto simp: MemoryStorage_get_def expired_at_def Let_def split: option.splits)

lemma get_live:
  "map_of (store s) k = Some v \<Longrightarrow> \<not> expired_at now (ttls s) k \<Longrightarrow>
   MemoryStorage_get P now k None s = (Some (Raw v), s)"
  by (auto simp: MemoryStorage_get_def expired_at_def Let_def split: option.splits)

subsection \<open>TestStorage computes what MemoryStorage computes\<close>

lemma TestStorage_get_eq: "TestStorage_get P now k ty s = MemoryStorage_get P now k ty s"
  by (simp add: TestStorage_get_def MemoryStorage_get_def)

lemma TestStorage_put_eq: "TestStorage_put now k v ttl s = MemoryStorage_put now k v ttl s"
  by (simp add: TestStorage_put_def MemoryStorage_put_def)

lemma TestStorage_delete_eq: "TestStorage_delete k s = MemoryStorage_delete k s"
  by (simp add: TestStorage_delete_def MemoryStorage_delete_def)

lemma TestStorage_list_loop_eq:
  "TestStorage_list_loop now pfx entries s keys = MemoryStorage_list_loop now pfx entries s keys"
  by (induction now pfx entries s keys rule: MemoryStorage_list_loop.induct)
     (simp_all add: Let_def)

lemma TestStorage_list_eq: "TestStorage_list now pfx s = MemoryStorage_list now pfx s"
  by (simp add: TestStorage_list_def MemoryStorage_list_def TestStorage_list_loop_eq)

lemma TestStorage_call_eq: "TestStorage_call P now c s = MemoryStorage_call P now c s"
  by (cases c) (simp_all add: TestStorage_call_def MemoryStorage_call_def TestStorage_get_eq
      TestStorage_put_eq TestStorage_delete_eq TestStorage_list_eq)

lemma TestStorage_run_eq: "TestStorage_run P trace s = MemoryStorage_run P trace s"
  by (induction trace arbitrary: s) (auto simp: TestStorage_call_eq)

section \<open>The claims about the storage adapters\<close>

subsection \<open>C8: expiry after \<^verbatim>\<open>expirationTtl\<close> seconds\<close>

text \<open>
  Claim C8, as amended. A key is written by \<^verbatim>\<open>put\<close> at time \<open>t0 \<ge> 0\<close> (milliseconds)
  with \<^verbatim>\<open>expirationTtl\<close> of \<open>n \<ge> 1\<close> whole seconds. Then, whatever calls other than a
  \<^verbatim>\<open>put\<close> or \<^verbatim>\<open>delete\<close> of that key follow, at whatever times: a \<^verbatim>\<open>get\<close> of the key at a
  time later than \<open>t0 + n * 1000\<close> returns \<^verbatim>\<open>null\<close>, whatever its options, and a \<^verbatim>\<open>list\<close>
  at such a time does not return the key, whatever its prefix; and when the calls in
  between and the \<^verbatim>\<open>get\<close> itself happen no later than \<open>t0 + n * 1000\<close>, the \<^verbatim>\<open>get\<close>
  returns the stored value and leaves the state as it is.
\<close>

theorem MemoryStorage_ttl_expiry:
  assumes n: "1 \<le> n" and t0: "0 \<le> t0"
    and tr: "\<forall>(t', c) \<in> set trace. \<not> writes key c"
  shows
    "(t0 + n * 1000 < t \<longrightarrow>
        fst (MemoryStorage_get JSON_parse t key otype
              (MemoryStorage_run JSON_parse trace (MemoryStorage_put t0 key v (Some n) s))) = None
      \<and> key \<notin> name ` set (fst (MemoryStorage_list t pfx
              (MemoryStorage_run JSON_parse trace (MemoryStorage_put t0 key v (Some n) s)))))
     \<and> ((\<forall>(t', c) \<in> set trace. t' \<le> t0 + n * 1000) \<and> t \<le> t0 + n * 1000 \<longrightarrow>
        MemoryStorage_get JSON_parse t key None
              (MemoryStorage_run JSON_parse trace (MemoryStorage_put t0 key v (Some n) s))
          = (Some (Raw v),
             MemoryStorage_run JSON_parse trace (MemoryStorage_put t0 key v (Some n) s)))"
proof -
  let ?e = "t0 + n * 1000"
  let ?s0 = "MemoryStorage_put t0 key v (Some n) s"
  let ?s1 = "MemoryStorage_run JSON_parse trace ?s0"
  from n t0 have e: "?e \<noteq> 0" by arith
  from n have "n \<noteq> 0" by simp
  then have p: "map_of (store ?s0) key = Some v" "map_of (ttls ?s0) key = Some ?e"
    using put_ttl_lookup[of n t0 key v s] by simp_all
  have after: "fst (MemoryStorage_get JSON_parse t key otype ?s1) = None
      \<and> key \<notin> name ` set (fst (MemoryStorage_list t pfx ?s1))" if lt: "?e < t"
  proof -
    from run_expiring[OF tr, of ?s0 ?e JSON_parse] p
    have "map_of (store ?s1) key = None \<or> map_of (ttls ?s1) key = Some ?e" by simp
    with e lt have x: "map_of (store ?s1) key = None \<or> expired_at t (ttls ?s1) key"
      by (auto simp: expired_at_def)
    from get_expired[OF x] list_excludes[OF x] show ?thesis by simp
  qed
  have before: "MemoryStorage_get JSON_parse t key None ?s1 = (Some (Raw v), ?s1)"
    if le: "\<forall>(t', c) \<in> set trace. t' \<le> ?e" "t \<le> ?e"
  proof -
    from tr le(1) have "\<forall>(t', c) \<in> set trace. \<not> writes key c \<and> t' \<le> ?e" by auto
    from run_before_expiry[OF this p(1) p(2), of JSON_parse]
    have q: "map_of (store ?s1) key = Some v" "map_of (ttls ?s1) key = Some ?e" by simp_all
    from q(2) le(2) have "\<not> expired_at t (ttls ?s1) key" by (simp add: expired_at_def)
    with q(1) show ?thesis by (rule get_live)
  qed
  from after before show ?thesis by blast
qed

text \<open>
  The theorem at a concrete input: the key is written at 1000 ms with a TTL of one
  second, four calls on this and other keys follow; at 2100 ms \<^verbatim>\<open>get\<close> returns \<^verbatim>\<open>null\<close>
  and \<^verbatim>\<open>list\<close> leaves the key out, at 2000 ms \<^verbatim>\<open>get\<close> returns the value.
\<close>

theorem MemoryStorage_ttl_expiry_witness:
  "fst (MemoryStorage_get Some 2100 ''expiring'' None
         (MemoryStorage_run Some witness_trace
            (MemoryStorage_put 1000 ''expiring'' ''value2'' (Some 1) MemoryStorage_new)))
     = (None :: (string, string) got option)
   \<and> ''expiring'' \<notin> name ` set (fst (MemoryStorage_list 2100 None
         (MemoryStorage_run Some witness_trace
            (MemoryStorage_put 1000 ''expiring'' ''value2'' (Some 1) MemoryStorage_new))))
   \<and> fst (MemoryStorage_get Some 2000 ''expiring'' None
         (MemoryStorage_run Some witness_trace
            (MemoryStorage_put 1000 ''expiring'' ''value2'' (Some 1) MemoryStorage_new)))
     = (Some (Raw ''value2'') :: (string, string) got option)"
proof -
  have tr: "\<forall>(t', c) \<in> set witness_trace. \<not> writes ''expiring'' c"
    by (simp add: witness_trace_def)
  have le: "\<forall>(t', c) \<in> set witness_trace. t' \<le> 1000 + 1 * 1000"
    by (simp add: witness_trace_def)
  from MemoryStorage_ttl_expiry[of 1 1000 witness_trace "''expiring''" 2100 Some None
      "''value2''" MemoryStorage_new None, OF _ _ tr]
    MemoryStorage_ttl_expiry[of 1 1000 witness_trace "''expiring''" 2000 Some None
      "''value2''" MemoryStorage_new None, OF _ _ tr] le
  show ?thesis by simp
qed

text \<open>
  Claim C8 as stated, for every whole number \<open>n\<close> of seconds, fails at \<open>n = 0\<close>:
  \<^verbatim>\<open>put\<close> tests \<^verbatim>\<open>options?.expirationTtl\<close> for truthiness, so a TTL of 0 sets no expiry.
  Written at 1000 ms with \<^verbatim>\<open>expirationTtl: 0\<close>, the key is still returned by \<^verbatim>\<open>get\<close> and
  by \<^verbatim>\<open>list\<close> at 5000 ms, more than 0 seconds later.
\<close>

theorem MemoryStorage_ttl_zero_counterexample:
  "fst (MemoryStorage_get Some 5000 ''k'' None
         (MemoryStorage_put 1000 ''k'' ''v'' (Some 0) MemoryStorage_new))
     = (Some (Raw ''v'') :: (string, string) got option)
   \<and> map name (fst (MemoryStorage_list 5000 None
         (MemoryStorage_put 1000 ''k'' ''v'' (Some 0) MemoryStorage_new))) = [''k'']"
  by (simp add: MemoryStorage_get_def MemoryStorage_put_def MemoryStorage_new_def
      MemoryStorage_list_def Let_def)

subsection \<open>C9: exceptions of the KV namespace\<close>

text \<open>
  Claim C9. In \<^verbatim>\<open>KVStorage\<close>, for every key: when the call of \<^verbatim>\<open>kv.get\<close> that \<^verbatim>\<open>get\<close>
  makes throws, \<^verbatim>\<open>get\<close> returns \<^verbatim>\<open>null\<close>, and \<^verbatim>\<open>get\<close> never throws; when \<^verbatim>\<open>kv.list\<close>
  throws, \<^verbatim>\<open>list\<close> returns an empty \<^verbatim>\<open>keys\<close> array, and \<^verbatim>\<open>list\<close> never throws; when
  \<^verbatim>\<open>kv.put\<close> or \<^verbatim>\<open>kv.delete\<close> throws, \<^verbatim>\<open>put\<close> or \<^verbatim>\<open>delete\<close> throws the same exception.
\<close>

theorem KVStorage_exceptions:
  "(fst (kv_get kv key (if otype = Some ''json'' then ''json'' else ''text'') k) = Inl e \<longrightarrow>
      fst (KVStorage_get kv key otype k) = Inr None)
   \<and> (\<forall>e'. fst (KVStorage_get kv key otype k) \<noteq> Inl e')
   \<and> (fst (kv_list kv pfx k) = Inl e \<longrightarrow> fst (KVStorage_list kv pfx k) = Inr [])
   \<and> (\<forall>e'. fst (KVStorage_list kv pfx k) \<noteq> Inl e')
   \<and> (fst (kv_put kv key v
             (case expirationTtl of Some n \<Rightarrow> if n \<noteq> 0 then Some n else None | None \<Rightarrow> None) k)
         = Inl e \<longrightarrow>
      fst (KVStorage_put kv key v expirationTtl k) = Inl e)
   \<and> (fst (kv_delete kv key k) = Inl e \<longrightarrow> fst (KVStorage_delete kv key k) = Inl e)"
proof -
  have g: "fst (kv_get kv key (if otype = Some ''json'' then ''json'' else ''text'') k) = Inl e
      \<Longrightarrow> fst (KVStorage_get kv key otype k) = Inr None"
    by (auto simp: KVStorage_get_def split: prod.splits sum.splits if_splits)
  have g': "fst (KVStorage_get kv key otype k) \<noteq> Inl e'" for e'
    by (auto simp: KVStorage_get_def split: prod.splits sum.splits)
  have l: "fst (kv_list kv pfx k) = Inl e \<Longrightarrow> fst (KVStorage_list kv pfx k) = Inr []"
    by (auto simp: KVStorage_list_def split: prod.splits sum.splits)
  have l': "fst (KVStorage_list kv pfx k) \<noteq> Inl e'" for e'
    by (auto simp: KVStorage_list_def split: prod.splits sum.splits)
  have p: "fst (kv_put kv key v
             (case expirationTtl of Some n \<Rightarrow> if n \<noteq> 0 then Some n else None | None \<Rightarrow> None) k)
         = Inl e \<Longrightarrow> fst (KVStorage_put kv key v expirationTtl k) = Inl e"
    by (auto simp: KVStorage_put_def Let_def split: prod.splits sum.splits)
  have d: "fst (kv_delete kv key k) = Inl e \<Longrightarrow> fst (KVStorage_delete kv key k) = Inl e"
    by (auto simp: KVStorage_delete_def split: prod.splits sum.splits)
  from g g' l l' p d show ?thesis by blast
qed

text \<open>
  The theorem at a namespace all of whose operations throw \<^verbatim>\<open>boom\<close>: \<^verbatim>\<open>get\<close> returns
  \<^verbatim>\<open>null\<close>, \<^verbatim>\<open>list\<close> no keys, \<^verbatim>\<open>put\<close> and \<^verbatim>\<open>delete\<close> throw \<^verbatim>\<open>boom\<close>.
\<close>

theorem KVStorage_exceptions_witness:
  "fst (KVStorage_get throwing_kv ''client:abc'' (Some ''json'') ()) = Inr None
   \<and> fst (KVStorage_list throwing_kv (Some ''client:'') ()) = Inr []
   \<and> fst (KVStorage_put throwing_kv ''client:abc'' ''{}'' (Some 60) ()) = Inl ''boom''
   \<and> fst (KVStorage_delete throwing_kv ''client:abc'' ()) = Inl ''boom''"
  using KVStorage_exceptions[of throwing_kv "''client:abc''" "Some ''json''" "()" "''boom''"
      "Some ''client:''" "''{}''" "Some 60"]
  by (simp add: throwing_kv_def)

subsection \<open>C10: a \<^verbatim>\<open>put\<close> without a TTL removes the expiry\<close>

text \<open>
  Claim C10. In \<^verbatim>\<open>MemoryStorage\<close> and in \<^verbatim>\<open>TestStorage\<close>, for every key and every state
  (in particular one where the key has an expiry): after a \<^verbatim>\<open>put\<close> whose options omit
  \<^verbatim>\<open>expirationTtl\<close> or give 0, the key has no expiry; and whatever calls other than a
  \<^verbatim>\<open>put\<close> or \<^verbatim>\<open>delete\<close> of that key follow, at whatever times, a \<^verbatim>\<open>get\<close> of the key at any
  time returns the value written and leaves the state as it is, and a \<^verbatim>\<open>list\<close> whose
  prefix the key starts with returns the key.
\<close>

theorem put_without_ttl_never_expires:
  assumes ttl: "expirationTtl = None \<or> expirationTtl = Some 0"
    and tr: "\<forall>(t', c) \<in> set trace. \<not> writes key c"
    and pf: "case pfx of None \<Rightarrow> True | Some p \<Rightarrow> p = [] \<or> prefix p key"
  shows
    "map_of (ttls (MemoryStorage_put t0 key v expirationTtl s)) key = None
     \<and> MemoryStorage_get JSON_parse t key None
          (MemoryStorage_run JSON_parse trace (MemoryStorage_put t0 key v expirationTtl s))
        = (Some (Raw v),
           MemoryStorage_run JSON_parse trace (MemoryStorage_put t0 key v expirationTtl s))
     \<and> key \<in> name ` set (fst (MemoryStorage_list t pfx
          (MemoryStorage_run JSON_parse trace (MemoryStorage_put t0 key v expirationTtl s))))
     \<and> map_of (ttls (TestStorage_put t0 key v expirationTtl s)) key = None
     \<and> TestStorage_get JSON_parse t key None
          (TestStorage_run JSON_parse trace (TestStorage_put t0 key v expirationTtl s))
        = (Some (Raw v),
           TestStorage_run JSON_parse trace (TestStorage_put t0 key v expirationTtl s))
     \<and> key \<in> name ` set (fst (TestStorage_list t pfx
          (TestStorage_run JSON_parse trace (TestStorage_put t0 key v expirationTtl s))))"
proof -
  let ?s0 = "MemoryStorage_put t0 key v expirationTtl s"
  let ?s1 = "MemoryStorage_run JSON_parse trace ?s0"
  from put_no_ttl_lookup[OF ttl, of t0 key v s]
  have p: "map_of (store ?s0) key = Some v" "map_of (ttls ?s0) key = None" by simp_all
  from run_persistent[OF tr p, of JSON_parse]
  have q: "map_of (store ?s1) key = Some v" "map_of (ttls ?s1) key = None" by simp_all
  from q(2) have live: "\<not> expired_at t (ttls ?s1) key" by (simp add: expired_at_def)
  have g: "MemoryStorage_get JSON_parse t key None ?s1 = (Some (Raw v), ?s1)"
    using q(1) live by (rule get_live)
  have l: "key \<in> name ` set (fst (MemoryStorage_list t pfx ?s1))"
    using q(1) live pf by (rule list_includes)
  from p(2) g l show ?thesis
    by (simp add: TestStorage_put_eq TestStorage_run_eq TestStorage_get_eq TestStorage_list_eq)
qed

text \<open>
  The theorem at a concrete input: a key written at 1000 ms with a TTL of one second is
  overwritten at 2000 ms with \<^verbatim>\<open>expirationTtl: 0\<close> (in \<^verbatim>\<open>MemoryStorage\<close>) and without
  options (in \<^verbatim>\<open>TestStorage\<close>); long after the first expiry \<^verbatim>\<open>get\<close> returns the new value.
\<close>

theorem put_without_ttl_never_expires_witness:
  "map_of (ttls (MemoryStorage_put 2000 ''k'' ''new'' (Some 0)
       (MemoryStorage_put 1000 ''k'' ''old'' (Some 1) MemoryStorage_new))) ''k'' = None
   \<and> fst (MemoryStorage_get Some 999999 ''k'' None
       (MemoryStorage_run Some [(3000, ListKeys None), (4000, Get ''k'' (Some ''json''))]
          (MemoryStorage_put 2000 ''k'' ''new'' (Some 0)
             (MemoryStorage_put 1000 ''k'' ''old'' (Some 1) MemoryStorage_new))))
     = (Some (Raw ''new'') :: (string, string) got option)
   \<and> fst (TestStorage_get Some 999999 ''k'' None
       (TestStorage_run Some [(3000, ListKeys None), (4000, Get ''k'' (Some ''json''))]
          (TestStorage_put 2000 ''k'' ''new'' None
             (TestStorage_put 1000 ''k'' ''old'' (Some 1) TestStorage_new))))
     = (Some (Raw ''new'') :: (string, string) got option)"
proof -
  let ?tr = "[(3000, ListKeys None), (4000, Get ''k'' (Some ''json''))] :: (int \<times> string call) list"
  have tr: "\<forall>(t', c) \<in> set ?tr. \<not> writes ''k'' c" by simp
  have pf: "case (None :: string option) of None \<Rightarrow> True | Some p \<Rightarrow> p = [] \<or> prefix p ''k''"
    by simp
  from put_without_ttl_never_expires[of "Some 0" ?tr "''k''" None 2000 "''new''"
      "MemoryStorage_put 1000 ''k'' ''old'' (Some 1) MemoryStorage_new" Some 999999, OF _ tr pf]
    put_without_ttl_never_expires[of None ?tr "''k''" None 2000 "''new''"
      "TestStorage_put 1000 ''k'' ''old'' (Some 1) TestStorage_new" Some 999999, OF _ tr pf]
  show ?thesis by simp
qed

section \<open>Properties of the authorization endpoint\<close>

lemma get_json_live:
  "map_of (store s) k = Some e \<Longrightarrow> \<not> expired_at now (ttls s) k \<Longrightarrow>
   TestStorage_get Some now k (Some ''json'') s = (Some (Parsed e), s)"
  by (auto simp: TestStorage_get_def expired_at_def Let_def split: option.splits)

lemma get_json_absent:
  "map_of (store s) k = None \<or> expired_at now (ttls s) k \<Longrightarrow>
   fst (TestStorage_get P now k ty s) = None"
  by (simp add: TestStorage_get_eq get_expired)

lemma get_json_Some:
  "TestStorage_get Some now k (Some ''json'') s = (Some g, s1) \<Longrightarrow>
   s1 = s \<and> \<not> expired_at now (ttls s) k \<and> (\<exists>e. g = Parsed e \<and> map_of (store s) k = Some e)"
  by (auto simp: TestStorage_get_def expired_at_def Let_def split: option.splits if_splits)

lemma lookup_registered:
  "map_of (store s) (''client:'' @ cid) = Some (ClientEntry client) \<Longrightarrow>
   map_of (ttls s) (''client:'' @ cid) = None \<Longrightarrow>
   lookup now cid s = (Some client, s)"
proof -
  assume a: "map_of (store s) (''client:'' @ cid) = Some (ClientEntry client)"
    and b: "map_of (ttls s) (''client:'' @ cid) = None"
  from b have "\<not> expired_at now (ttls s) (''client:'' @ cid)" by (simp add: expired_at_def)
  with a have "TestStorage_get Some now (''client:'' @ cid) (Some ''json'') s
      = (Some (Parsed (ClientEntry client)), s)" by (rule get_json_live)
  then show ?thesis by (simp add: lookup_def)
qed

lemma validateCsrfToken_fails:
  assumes "\<forall>tok r. param form ''csrf_token'' = Some tok
              \<and> map_of (store s) (''csrf:'' @ tok) = Some (CsrfEntry r)
              \<and> \<not> expired_at now (ttls s) (''csrf:'' @ tok)
            \<longrightarrow> param form ''client_id'' \<noteq> Some (csrf_clientId r)
                \<or> param form ''redirect_uri'' \<noteq> Some (csrf_redirectUri r)"
  shows "fst (validateCsrfToken now form s) = False"
proof (cases "param form ''csrf_token''")
  case None
  then show ?thesis by (simp add: validateCsrfToken_def)
next
  case (Some tok)
  obtain g s1 where g: "TestStorage_get Some now (''csrf:'' @ tok) (Some ''json'') s = (g, s1)"
    by (cases "TestStorage_get Some now (''csrf:'' @ tok) (Some ''json'') s")
  show ?thesis
  proof (cases g)
    case None
    with Some g show ?thesis by (simp add: validateCsrfToken_def)
  next
    case (Some a)
    with g get_json_Some[of now "''csrf:'' @ tok" s a s1]
    obtain e where e: "a = Parsed e" "map_of (store s) (''csrf:'' @ tok) = Some e"
      "\<not> expired_at now (ttls s) (''csrf:'' @ tok)" by auto
    show ?thesis
    proof (cases e)
      case (CsrfEntry r)
      with assms \<open>param form ''csrf_token'' = Some tok\<close> e
      have "param form ''client_id'' \<noteq> Some (csrf_clientId r)
                \<or> param form ''redirect_uri'' \<noteq> Some (csrf_redirectUri r)" by blast
      with \<open>param form ''csrf_token'' = Some tok\<close> g Some e CsrfEntry show ?thesis
        by (auto simp: validateCsrfToken_def)
    qed (use \<open>param form ''csrf_token'' = Some tok\<close> g Some e in
          \<open>simp_all add: validateCsrfToken_def\<close>)
  qed
qed

lemma validateCsrfToken_succeeds:
  assumes "param form ''csrf_token'' = Some tok"
    and "map_of (store s) (''csrf:'' @ tok) = Some (CsrfEntry r)"
    and "\<not> expired_at now (ttls s) (''csrf:'' @ tok)"
    and "param form ''client_id'' = Some (csrf_clientId r)"
    and "param form ''redirect_uri'' = Some (csrf_redirectUri r)"
  shows "validateCsrfToken now form s = (True, TestStorage_delete (''csrf:'' @ tok) s)"
  using assms get_json_live[OF assms(2,3)] by (simp add: validateCsrfToken_def)

lemma POST_authorize_state:
  "validateCsrfToken now form s = (True, TestStorage_delete k s) \<Longrightarrow> k = ''csrf:'' @ tok \<Longrightarrow>
   map_of (store (snd (POST_authorize cfg code userId ctx now form s))) k = None"
  by (auto simp: POST_authorize_def Let_def TestStorage_delete_def TestStorage_put_def
      AList.delete_conv' AList.update_conv' error_redirect_def split: option.splits)

section \<open>The claims about the authorization endpoint\<close>

subsection \<open>C6: the redirect URI must match exactly\<close>

text \<open>
  Claim C6. Let a client be registered (its record is stored under \<^verbatim>\<open>client:<id>\<close>, with
  no expiry) and let a \<^verbatim>\<open>GET /authorize\<close> request name it and give a \<^verbatim>\<open>redirect_uri\<close>.
  The validation is the exact match with one of the client's registered redirect URIs.
  If the URI is none of them, however it differs, the response is a JSON body with HTTP
  400 and error \<^verbatim>\<open>invalid_request\<close>, not a redirect, and the storage is unchanged; for a
  request with \<^verbatim>\<open>response_type=code\<close> the description is the one that names
  \<^verbatim>\<open>redirect_uri\<close>. If the URI is one of them and \<^verbatim>\<open>response_type=code\<close>, the response is
  the consent page or a redirect to that URI.
\<close>

theorem redirect_uri_exact_match:
  assumes reg: "map_of (store s) (''client:'' @ cid) = Some (ClientEntry client)"
    and noexp: "map_of (ttls s) (''client:'' @ cid) = None"
    and cid: "param q ''client_id'' = Some cid"
    and uri: "param q ''redirect_uri'' = Some uri"
  shows
    "validateRedirectUri client uri = (uri \<in> set (redirect_uris client))
     \<and> (uri \<notin> set (redirect_uris client) \<longrightarrow>
          (\<exists>d. GET_authorize cfg csrfToken now q s = (Json 400 (error_body ''invalid_request'' d), s))
          \<and> (param q ''response_type'' = Some ''code'' \<longrightarrow>
               GET_authorize cfg csrfToken now q s
                 = (Json 400 (error_body ''invalid_request'' redirect_uri_description), s)))
     \<and> (uri \<in> set (redirect_uris client) \<and> param q ''response_type'' = Some ''code'' \<longrightarrow>
          (\<exists>page. fst (GET_authorize cfg csrfToken now q s) = ConsentPage page)
          \<or> (\<exists>ps. fst (GET_authorize cfg csrfToken now q s) = Redirect uri ps))
     \<and> sublist ''redirect_uri'' redirect_uri_description"
proof -
  have l: "lookup now cid s = (Some client, s)"
    using reg noexp by (rule lookup_registered)
  have v: "validateRedirectUri client uri = (uri \<in> set (redirect_uris client))"
    by (simp add: validateRedirectUri_def)
  have bad_code: "GET_authorize cfg csrfToken now q s
        = (Json 400 (error_body ''invalid_request'' redirect_uri_description), s)"
    if "uri \<notin> set (redirect_uris client)" "param q ''response_type'' = Some ''code''"
    using that l cid uri by (simp add: GET_authorize_def validateRedirectUri_def)
  have bad: "\<exists>d. GET_authorize cfg csrfToken now q s
        = (Json 400 (error_body ''invalid_request'' d), s)"
    if n: "uri \<notin> set (redirect_uris client)"
  proof (cases "param q ''response_type'' = Some ''code''")
    case True
    with n bad_code show ?thesis by blast
  next
    case False
    then show ?thesis by (auto simp: GET_authorize_def)
  qed
  have good: "(\<exists>page. fst (GET_authorize cfg csrfToken now q s) = ConsentPage page)
          \<or> (\<exists>ps. fst (GET_authorize cfg csrfToken now q s) = Redirect uri ps)"
    if "uri \<in> set (redirect_uris client)" "param q ''response_type'' = Some ''code''"
    using that l cid uri
    by (simp add: GET_authorize_def validateRedirectUri_def Let_def error_redirect_def)
  have d: "sublist ''redirect_uri'' redirect_uri_description"
    by (simp add: redirect_uri_description_def sublist_Cons_right)
  from v bad bad_code good d show ?thesis by blast
qed

text \<open>
  The theorem at the client of the tests: a request whose redirect URI has a trailing
  slash more than the registered one is answered with the JSON error, the registered URI
  with the consent page.
\<close>

theorem redirect_uri_exact_match_witness:
  "GET_authorize test_config ''tok'' 3000
     [(''response_type'', ''code''), (''client_id'', ''abc''),
      (''redirect_uri'', ''https://client.example.com/callback/''), (''state'', ''random-state'')]
     test_storage
   = (Json 400 [(''error'', ''invalid_request''), (''error_description'', redirect_uri_description)],
      test_storage)
   \<and> (\<exists>page. fst (GET_authorize test_config ''tok'' 3000
     [(''response_type'', ''code''), (''client_id'', ''abc''),
      (''redirect_uri'', ''https://client.example.com/callback''), (''state'', ''random-state'')]
     test_storage) = ConsentPage page)"
proof -
  have reg: "map_of (store test_storage) (''client:'' @ ''abc'') = Some (ClientEntry test_client)"
    "map_of (ttls test_storage) (''client:'' @ ''abc'') = None"
    by (simp_all add: test_storage_def TestStorage_put_def TestStorage_new_def Let_def)
  let ?q = "\<lambda>u. [(''response_type'', ''code''), (''client_id'', ''abc''),
      (''redirect_uri'', u), (''state'', ''random-state'')]"
  from redirect_uri_exact_match[OF reg, of "?q ''https://client.example.com/callback/''"
      "''https://client.example.com/callback/''" test_config "''tok''" 3000]
  have a: "GET_authorize test_config ''tok'' 3000 (?q ''https://client.example.com/callback/'')
     test_storage
   = (Json 400 [(''error'', ''invalid_request''), (''error_description'', redirect_uri_description)],
      test_storage)"
    by (simp add: param_def test_client_def error_body_def)
  from redirect_uri_exact_match[OF reg, of "?q ''https://client.example.com/callback''"
      "''https://client.example.com/callback''" test_config "''tok''" 3000]
  have b: "(\<exists>page. fst (GET_authorize test_config ''tok'' 3000
      (?q ''https://client.example.com/callback'') test_storage) = ConsentPage page)
    \<or> (\<exists>ps. fst (GET_authorize test_config ''tok'' 3000
      (?q ''https://client.example.com/callback'') test_storage)
        = Redirect ''https://client.example.com/callback'' ps)"
    by (simp add: param_def test_client_def)
  have c: "\<exists>page. fst (GET_authorize test_config ''tok'' 3000
      (?q ''https://client.example.com/callback'') test_storage) = ConsentPage page"
    by (simp add: GET_authorize_def lookup_def test_storage_def
        test_config_def test_client_def TestStorage_get_def TestStorage_put_def
        TestStorage_new_def param_def Let_def validateRedirectUri_def)
  from a c show ?thesis by simp
qed

subsection \<open>C5: the CSRF token is matched exactly and used once\<close>

text \<open>
  Claim C5. A \<^verbatim>\<open>POST /authorize\<close> whose \<^verbatim>\<open>csrf_token\<close> is not the key of a live stored
  record for the client and redirect URI of the form (no token in the form, no record
  under it, an expired record, or a record for another client or redirect URI) is
  answered with a JSON body with HTTP 400, error \<^verbatim>\<open>invalid_request\<close> and a description
  that contains \<^verbatim>\<open>CSRF\<close>; it is not a redirect. A \<^verbatim>\<open>POST\<close> whose token matches such a
  record is answered with a redirect to the record's redirect URI and deletes the record;
  after it, whatever storage calls other than a \<^verbatim>\<open>put\<close> or \<^verbatim>\<open>delete\<close> of that token's key
  follow, every \<^verbatim>\<open>POST\<close> with the same token, whatever else it submits and whenever, is
  answered with that JSON error.
\<close>

theorem csrf_token_single_use:
  "((\<forall>tok r. param form ''csrf_token'' = Some tok
          \<and> map_of (store s) (''csrf:'' @ tok) = Some (CsrfEntry r)
          \<and> \<not> expired_at now (ttls s) (''csrf:'' @ tok)
        \<longrightarrow> param form ''client_id'' \<noteq> Some (csrf_clientId r)
            \<or> param form ''redirect_uri'' \<noteq> Some (csrf_redirectUri r))
      \<longrightarrow> fst (POST_authorize cfg code userId ctx now form s)
            = Json 400 (error_body ''invalid_request'' csrf_description))
   \<and> (param form ''csrf_token'' = Some tok
        \<and> map_of (store s) (''csrf:'' @ tok) = Some (CsrfEntry r)
        \<and> \<not> expired_at now (ttls s) (''csrf:'' @ tok)
        \<and> param form ''client_id'' = Some (csrf_clientId r)
        \<and> param form ''redirect_uri'' = Some (csrf_redirectUri r)
      \<longrightarrow> (\<exists>ps. fst (POST_authorize cfg code userId ctx now form s)
                  = Redirect (csrf_redirectUri r) ps)
          \<and> map_of (store (snd (POST_authorize cfg code userId ctx now form s)))
               (''csrf:'' @ tok) = None
          \<and> ((\<forall>(t, c) \<in> set trace. \<not> writes (''csrf:'' @ tok) c)
               \<and> param form2 ''csrf_token'' = Some tok
             \<longrightarrow> fst (POST_authorize cfg2 code2 userId2 ctx2 now2 form2
                        (TestStorage_run Some trace
                           (snd (POST_authorize cfg code userId ctx now form s))))
                   = Json 400 (error_body ''invalid_request'' csrf_description)))
   \<and> sublist ''CSRF'' csrf_description"
proof -
  have rejected: "fst (POST_authorize cfg code userId ctx now form s)
        = Json 400 (error_body ''invalid_request'' csrf_description)"
    if "fst (validateCsrfToken now form s) = False" for cfg code userId ctx now form s
    using that
    by (cases "validateCsrfToken now form s") (simp add: POST_authorize_def)
  have A: "fst (POST_authorize cfg code userId ctx now form s)
        = Json 400 (error_body ''invalid_request'' csrf_description)"
    if "\<forall>tok r. param form ''csrf_token'' = Some tok
          \<and> map_of (store s) (''csrf:'' @ tok) = Some (CsrfEntry r)
          \<and> \<not> expired_at now (ttls s) (''csrf:'' @ tok)
        \<longrightarrow> param form ''client_id'' \<noteq> Some (csrf_clientId r)
            \<or> param form ''redirect_uri'' \<noteq> Some (csrf_redirectUri r)"
    using validateCsrfToken_fails[OF that] by (rule rejected)
  have B: "(\<exists>ps. fst (POST_authorize cfg code userId ctx now form s)
                  = Redirect (csrf_redirectUri r) ps)
          \<and> map_of (store (snd (POST_authorize cfg code userId ctx now form s)))
               (''csrf:'' @ tok) = None
          \<and> ((\<forall>(t, c) \<in> set trace. \<not> writes (''csrf:'' @ tok) c)
               \<and> param form2 ''csrf_token'' = Some tok
             \<longrightarrow> fst (POST_authorize cfg2 code2 userId2 ctx2 now2 form2
                        (TestStorage_run Some trace
                           (snd (POST_authorize cfg code userId ctx now form s))))
                   = Json 400 (error_body ''invalid_request'' csrf_description))"
    if h: "param form ''csrf_token'' = Some tok"
        "map_of (store s) (''csrf:'' @ tok) = Some (CsrfEntry r)"
        "\<not> expired_at now (ttls s) (''csrf:'' @ tok)"
        "param form ''client_id'' = Some (csrf_clientId r)"
        "param form ''redirect_uri'' = Some (csrf_redirectUri r)"
  proof -
    let ?k = "''csrf:'' @ tok"
    let ?s' = "snd (POST_authorize cfg code userId ctx now form s)"
    have v: "validateCsrfToken now form s = (True, TestStorage_delete ?k s)"
      using h by (rule validateCsrfToken_succeeds)
    have r: "\<exists>ps. fst (POST_authorize cfg code userId ctx now form s)
                  = Redirect (csrf_redirectUri r) ps"
      using v h(4,5) by (simp add: POST_authorize_def Let_def error_redirect_def)
    have gone: "map_of (store ?s') ?k = None"
      using v by (rule POST_authorize_state) simp
    have again: "fst (POST_authorize cfg2 code2 userId2 ctx2 now2 form2
                        (TestStorage_run Some trace ?s'))
                   = Json 400 (error_body ''invalid_request'' csrf_description)"
      if tr: "\<forall>(t, c) \<in> set trace. \<not> writes ?k c" and f2: "param form2 ''csrf_token'' = Some tok"
    proof -
      let ?s2 = "TestStorage_run Some trace ?s'"
      from run_absent[OF tr gone, of Some]
      have "map_of (store ?s2) ?k = None" by (simp add: TestStorage_run_eq)
      then have "fst (TestStorage_get Some now2 ?k (Some ''json'') ?s2) = None"
        by (simp add: get_json_absent)
      with f2 have "fst (validateCsrfToken now2 form2 ?s2) = False"
        by (cases "TestStorage_get Some now2 ?k (Some ''json'') ?s2")
           (simp add: validateCsrfToken_def)
      then show ?thesis by (rule rejected)
    qed
    from r gone again show ?thesis by blast
  qed
  have C: "sublist ''CSRF'' csrf_description"
    by (simp add: csrf_description_def sublist_Cons_right)
  from A B C show ?thesis by blast
qed

text \<open>
  The theorem at the storage of the tests: a form with the token \<^verbatim>\<open>invalid-token\<close> is
  answered with the JSON error; the form with the stored token is answered with the
  redirect carrying \<^verbatim>\<open>code\<close>, \<^verbatim>\<open>state\<close> and \<^verbatim>\<open>iss\<close>; the same form submitted again is
  answered with the JSON error.
\<close>

theorem csrf_token_single_use_witness:
  "fst (POST_authorize test_config ''code1'' ''user1'' None 3000
          (test_form ''invalid-token'') test_storage)
     = Json 400 [(''error'', ''invalid_request''), (''error_description'', csrf_description)]
   \<and> fst (POST_authorize test_config ''code1'' ''user1'' None 3000
          (test_form ''test-csrf-success'') test_storage)
     = Redirect ''https://client.example.com/callback''
         [(''code'', ''code1''), (''state'', ''test-state''), (''iss'', ''http://localhost:8787'')]
   \<and> fst (POST_authorize test_config ''code2'' ''user1'' None 4000
          (test_form ''test-csrf-success'')
          (TestStorage_run Some []
             (snd (POST_authorize test_config ''code1'' ''user1'' None 3000
                     (test_form ''test-csrf-success'') test_storage))))
     = Json 400 [(''error'', ''invalid_request''), (''error_description'', csrf_description)]"
proof -
  have ev: "fst (POST_authorize test_config ''code1'' ''user1'' None 3000
          (test_form ''test-csrf-success'') test_storage)
     = Redirect ''https://client.example.com/callback''
         [(''code'', ''code1''), (''state'', ''test-state''), (''iss'', ''http://localhost:8787'')]"
    by (simp add: POST_authorize_def validateCsrfToken_def test_form_def test_storage_def
        test_config_def test_client_def TestStorage_get_def TestStorage_put_def
        TestStorage_delete_def TestStorage_new_def param_def Let_def state_param_def
        split_scope_def)
  have st: "map_of (store test_storage) (''csrf:'' @ ''test-csrf-success'')
      = Some (CsrfEntry \<lparr>csrf_clientId = ''abc'',
                   csrf_redirectUri = ''https://client.example.com/callback'',
                   csrf_expiresAt = 602000\<rparr>)"
    "\<not> expired_at 3000 (ttls test_storage) (''csrf:'' @ ''test-csrf-success'')"
    "map_of (store test_storage) (''csrf:'' @ ''invalid-token'') = None"
    by (simp_all add: test_storage_def TestStorage_put_def TestStorage_new_def Let_def
        expired_at_def)
  from st(3) have no: "\<forall>tok r. param (test_form ''invalid-token'') ''csrf_token'' = Some tok
          \<and> map_of (store test_storage) (''csrf:'' @ tok) = Some (CsrfEntry r)
          \<and> \<not> expired_at 3000 (ttls test_storage) (''csrf:'' @ tok)
        \<longrightarrow> param (test_form ''invalid-token'') ''client_id'' \<noteq> Some (csrf_clientId r)
            \<or> param (test_form ''invalid-token'') ''redirect_uri'' \<noteq> Some (csrf_redirectUri r)"
    by (simp add: test_form_def param_def)
  have f: "param (test_form ''test-csrf-success'') ''csrf_token'' = Some ''test-csrf-success''"
    "param (test_form ''test-csrf-success'') ''client_id'' = Some ''abc''"
    "param (test_form ''test-csrf-success'') ''redirect_uri''
       = Some ''https://client.example.com/callback''"
    by (simp_all add: test_form_def param_def)
  from csrf_token_single_use[of "test_form ''invalid-token''" test_storage 3000 test_config
      "''code1''" "''user1''" None] no
  have a: "fst (POST_authorize test_config ''code1'' ''user1'' None 3000
          (test_form ''invalid-token'') test_storage)
     = Json 400 [(''error'', ''invalid_request''), (''error_description'', csrf_description)]"
    by (simp add: error_body_def)
  from csrf_token_single_use[of "test_form ''test-csrf-success''" test_storage 3000 test_config
      "''code1''" "''user1''" None "''test-csrf-success''"
      "\<lparr>csrf_clientId = ''abc'', csrf_redirectUri = ''https://client.example.com/callback'',
        csrf_expiresAt = 602000\<rparr>" "[]" "test_form ''test-csrf-success''"
      test_config "''code2''" "''user1''" None 4000] st(1,2) f
  have b: "fst (POST_authorize test_config ''code2'' ''user1'' None 4000
          (test_form ''test-csrf-success'')
          (TestStorage_run Some []
             (snd (POST_authorize test_config ''code1'' ''user1'' None 3000
                     (test_form ''test-csrf-success'') test_storage))))
     = Json 400 [(''error'', ''invalid_request''), (''error_description'', csrf_description)]"
    by (simp add: error_body_def)
  from a ev b show ?thesis by simp
qed

end
